theory Spec2Isabelle
  imports Main
begin

section \<open>The URL tool of cc-toolkit (src/pages/UrlTool.tsx)\<close>

text \<open>
  The page keeps its whole state in the query string: the input URL (\<open>u\<close>), the order of
  the transforms (\<open>order\<close>), the enabled ones (\<open>active\<close>) and one parameter
  \<open>key.field\<close> per configuration value. Three decoders read the query string, a
  \<open>reduce\<close> runs the enabled transforms, three handlers write the query string back.

  JavaScript strings are modelled as \<^typ>\<open>string\<close>: one \<^typ>\<open>char\<close> stands for one
  code unit. The code compares code units only with the ASCII delimiters and keys.
\<close>

subsection \<open>Exceptions\<close>

text \<open>
  A computation that may throw returns \<open>js_error + 'a\<close>: \<open>Inl e\<close> is the exception
  \<open>e\<close> thrown, \<open>Inr v\<close> is normal completion with the value \<open>v\<close>. The value
  \<open>null\<close> of a \<open>string | null\<close> is \<open>None\<close>.
\<close>

datatype js_error = TypeError | URIError

subsection \<open>String primitives\<close>

text \<open>\<open>s.split(d)\<close> for a one-character separator: never empty, \<open>"".split(",")\<close> is \<open>[""]\<close>.\<close>

fun split :: "char \<Rightarrow> string \<Rightarrow> string list" where
  "split d [] = [[]]"
| "split d (c # cs) =
     (if c = d then [] # split d cs
      else (case split d cs of [] \<Rightarrow> [[c]] | w # ws \<Rightarrow> (c # w) # ws))"

text \<open>
  \<open>xs.join(d)\<close> of an array that may hold \<open>undefined\<close> (here \<open>None\<close>), which joins
  as the empty string.
\<close>

fun join :: "char \<Rightarrow> string option list \<Rightarrow> string" where
  "join d [] = []"
| "join d [x] = (case x of None \<Rightarrow> [] | Some s \<Rightarrow> s)"
| "join d (x # y # ys) = (case x of None \<Rightarrow> [] | Some s \<Rightarrow> s) @ d # join d (y # ys)"

text \<open>\<open>xs.indexOf(x)\<close>: the first index, or \<open>-1\<close>.\<close>

fun indexOf :: "'a list \<Rightarrow> 'a \<Rightarrow> int" where
  "indexOf [] x = -1"
| "indexOf (y # ys) x =
     (if y = x then 0 else (let i = indexOf ys x in if i = -1 then -1 else i + 1))"

text \<open>\<open>s.slice(a, b)\<close> and \<open>s.slice(a)\<close> for the non-negative arguments the code passes.\<close>

definition slice :: "string \<Rightarrow> int \<Rightarrow> int \<Rightarrow> string" where
  "slice s a b = take (nat b - nat a) (drop (nat a) s)"

definition slice_from :: "string \<Rightarrow> int \<Rightarrow> string" where
  "slice_from s a = drop (nat a) s"

subsection \<open>\<open>URLSearchParams\<close>\<close>

text \<open>
  The flat parameter mapping is a list of (name, value) pairs in entry order; a name may
  occur more than once. \<open>get\<close> reads the first entry of a name, \<open>set\<close> overwrites the
  first entry and removes the others (appending when there is none), \<open>delete\<close> removes
  every entry of the name.
\<close>

type_synonym URLSearchParams = "(string \<times> string) list"

fun sp_get :: "URLSearchParams \<Rightarrow> string \<Rightarrow> string option" where
  "sp_get [] n = None"
| "sp_get ((m, v) # ps) n = (if m = n then Some v else sp_get ps n)"

definition sp_delete :: "URLSearchParams \<Rightarrow> string \<Rightarrow> URLSearchParams" where
  "sp_delete ps n = filter (\<lambda>(m, v). m \<noteq> n) ps"

fun sp_set :: "URLSearchParams \<Rightarrow> string \<Rightarrow> string \<Rightarrow> URLSearchParams" where
  "sp_set [] n v = [(n, v)]"
| "sp_set ((m, w) # ps) n v =
     (if m = n then (n, v) # sp_delete ps n else (m, w) # sp_set ps n v)"

subsection \<open>The platform\<close>

text \<open>
  The transforms call three built-ins that are not code of the repository:
  \<open>decodeURIComponent\<close> (which throws \<open>URIError\<close> on a malformed escape), the
  \<open>URL\<close> constructor (which throws \<open>TypeError\<close> when its argument is not an absolute
  URL), the \<open>hostname\<close> setter and \<open>toString\<close> of a \<open>URL\<close> object. They are
  parameters of the model. A \<open>URL\<close> object is its URL record, with the components
  the URL standard gives it: the host is absent or a serialized host, the path is opaque
  (as in \<open>mailto:a@b.c\<close>) or a list of segments.
\<close>

datatype URL_path = Opaque string | Segments "string list"

record URL =
  url_scheme :: string
  url_username :: string
  url_password :: string
  url_host :: "string option"
  url_port :: "string option"
  url_path :: URL_path
  url_query :: "string option"
  url_fragment :: "string option"

record platform =
  decodeURIComponent :: "string \<Rightarrow> js_error + string"
  URL_new :: "string \<Rightarrow> js_error + URL"
  URL_set_hostname :: "URL \<Rightarrow> string \<Rightarrow> js_error + URL"
  URL_toString :: "URL \<Rightarrow> js_error + string"

subsection \<open>The hostname setter and the serializer of the URL standard\<close>

text \<open>
  What \<open>parsed.hostname = to\<close> and \<open>parsed.toString()\<close> do is fixed by the URL
  standard, as algorithms on the URL record. They are written out here, so that the
  result of \<open>hostnameReplace\<close> can be stated for the platforms that follow the
  standard. Two parts stay parameters: the URL parser behind the constructor, and the
  host parser, which maps a host string to a serialized host or fails (\<open>None\<close>); its
  second argument says that the URL is not special.
\<close>

definition special_scheme :: "string \<Rightarrow> bool" where
  "special_scheme s \<longleftrightarrow> s \<in> set [''ftp'', ''file'', ''http'', ''https'', ''ws'', ''wss'']"

definition includes_credentials :: "URL \<Rightarrow> bool" where
  "includes_credentials u \<longleftrightarrow> url_username u \<noteq> [] \<or> url_password u \<noteq> []"

text \<open>The URL serializer.\<close>

definition serialize :: "URL \<Rightarrow> string" where
  "serialize u =
     url_scheme u @ '':''
     @ (case url_host u of
          Some h \<Rightarrow>
            ''//''
            @ (if includes_credentials u
               then url_username u
                    @ (if url_password u = [] then [] else CHR '':'' # url_password u)
                    @ ''@''
               else [])
            @ h
            @ (case url_port u of None \<Rightarrow> [] | Some p \<Rightarrow> CHR '':'' # p)
        | None \<Rightarrow>
            (case url_path u of
               Segments (s # t # ts) \<Rightarrow> if s = [] then ''/.'' else []
             | _ \<Rightarrow> []))
     @ (case url_path u of
          Opaque p \<Rightarrow> p
        | Segments segs \<Rightarrow> concat (map (\<lambda>seg. CHR ''/'' # seg) segs))
     @ (case url_query u of None \<Rightarrow> [] | Some q \<Rightarrow> CHR ''?'' # q)
     @ (case url_fragment u of None \<Rightarrow> [] | Some f \<Rightarrow> CHR ''#'' # f)"

type_synonym host_parser = "string \<Rightarrow> bool \<Rightarrow> string option"

text \<open>
  The hostname state of the URL parser, entered by the setter with the URL as it is and
  the new value as input. The buffer collects the value up to the first \<open>/\<close>, \<open>?\<close>,
  \<open>#\<close> (and backslash for a special URL), and the host parser decides; a \<open>:\<close> outside
  brackets, an empty host for a special URL, and an empty host for a URL with
  credentials or a port are failures. \<open>None\<close> is failure, \<open>Some h\<close> the new host.
\<close>

definition host_end :: "host_parser \<Rightarrow> URL \<Rightarrow> string \<Rightarrow> string option" where
  "host_end hp u buffer =
     (if special_scheme (url_scheme u) \<and> buffer = [] then None
      else if buffer = [] \<and> (includes_credentials u \<or> url_port u \<noteq> None) then None
      else hp buffer (\<not> special_scheme (url_scheme u)))"

fun host_state :: "host_parser \<Rightarrow> URL \<Rightarrow> string \<Rightarrow> string \<Rightarrow> bool \<Rightarrow> string option" where
  "host_state hp u [] buffer insideBrackets = host_end hp u buffer"
| "host_state hp u (c # cs) buffer insideBrackets =
     (if c = CHR '':'' \<and> \<not> insideBrackets then None
      else if c = CHR ''/'' \<or> c = CHR ''?'' \<or> c = CHR ''#'' \<or>
              (special_scheme (url_scheme u) \<and> c = CHR 0x5C)
      then host_end hp u buffer
      else host_state hp u cs (buffer @ [c])
             (if c = CHR ''['' then True else if c = CHR '']'' then False else insideBrackets))"

text \<open>The file host state, which the setter enters instead when the scheme is \<open>file\<close>.\<close>

definition file_host_end :: "host_parser \<Rightarrow> string \<Rightarrow> string option" where
  "file_host_end hp buffer =
     (if buffer = [] then Some []
      else (case hp buffer False of
              None \<Rightarrow> None
            | Some h \<Rightarrow> Some (if h = ''localhost'' then [] else h)))"

fun file_host_state :: "host_parser \<Rightarrow> string \<Rightarrow> string \<Rightarrow> string option" where
  "file_host_state hp [] buffer = file_host_end hp buffer"
| "file_host_state hp (c # cs) buffer =
     (if c = CHR ''/'' \<or> c = CHR 0x5C \<or> c = CHR ''?'' \<or> c = CHR ''#''
      then file_host_end hp buffer
      else file_host_state hp cs (buffer @ [c]))"

text \<open>
  The hostname setter: nothing happens for a URL with an opaque path; otherwise tabs and
  newlines are removed from the value, the hostname state runs on it, and a failure
  leaves the URL as it was. The setter writes no component but the host.
\<close>

definition tab_or_newline :: "char \<Rightarrow> bool" where
  "tab_or_newline c \<longleftrightarrow> c = CHR 0x09 \<or> c = CHR 0x0A \<or> c = CHR 0x0D"

definition strip_tab_newline :: "string \<Rightarrow> string" where
  "strip_tab_newline v = filter (\<lambda>c. \<not> tab_or_newline c) v"

definition hostname_setter :: "host_parser \<Rightarrow> URL \<Rightarrow> string \<Rightarrow> URL" where
  "hostname_setter hp u v =
     (case url_path u of
        Opaque p \<Rightarrow> u
      | Segments segs \<Rightarrow>
          (let input = strip_tab_newline v
           in case (if url_scheme u = ''file'' then file_host_state hp input []
                    else host_state hp u input [] False) of
                None \<Rightarrow> u
              | Some h \<Rightarrow> u\<lparr>url_host := Some h\<rparr>))"

text \<open>
  A platform that follows the standard, for any \<open>decodeURIComponent\<close>, any URL parser
  and any host parser.
\<close>

definition standard_platform ::
    "(string \<Rightarrow> js_error + string) \<Rightarrow> (string \<Rightarrow> js_error + URL) \<Rightarrow> host_parser \<Rightarrow> platform" where
  "standard_platform dec parse hp =
    \<lparr>decodeURIComponent = dec,
     URL_new = parse,
     URL_set_hostname = (\<lambda>u v. Inr (hostname_setter hp u v)),
     URL_toString = (\<lambda>u. Inr (serialize u))\<rparr>"

text \<open>
  An input that the hostname state and the file host state take whole: not empty, and
  without the characters \<open>:\<close>, \<open>/\<close>, \<open>?\<close>, \<open>#\<close> and backslash.
\<close>

definition plain_host :: "string \<Rightarrow> bool" where
  "plain_host v \<longleftrightarrow>
     v \<noteq> [] \<and>
     list_all (\<lambda>c. c \<noteq> CHR '':'' \<and> c \<noteq> CHR ''/'' \<and> c \<noteq> CHR ''?'' \<and> c \<noteq> CHR ''#'' \<and>
                   c \<noteq> CHR 0x5C) v"

subsection \<open>Objects read by the code\<close>

text \<open>
  A transform's configuration object is a finite map from field names to strings. The
  value the executor passes as configuration is \<open>configs[key] ?? {}\<close>, and a property
  read on the \<open>configs\<close> object walks its prototype chain, so besides a configuration
  object it can be a string (a field of an object that became the prototype of
  \<open>configs\<close>) or a built-in of \<open>Object.prototype\<close>.
\<close>

type_synonym config = "string \<rightharpoonup> string"

datatype jsvalue = JObject config | JString string | JBuiltin

text \<open>
  The property names of \<open>Object.prototype\<close>. Every object created by an object literal
  or by \<open>Object.fromEntries\<close> inherits them, and \<open>k in obj\<close> is true for each.
\<close>

definition Object_prototype_keys :: "string list" where
  "Object_prototype_keys =
    [''constructor'', ''hasOwnProperty'', ''isPrototypeOf'', ''propertyIsEnumerable'',
     ''toLocaleString'', ''toString'', ''valueOf'', ''__proto__'',
     ''__defineGetter__'', ''__defineSetter__'', ''__lookupGetter__'', ''__lookupSetter__'']"

subsection \<open>The transform registry\<close>

text \<open>The capture group of the first match of \<open>/\/L0\/([^/]+)/\<close>, or \<open>None\<close>.\<close>

fun match_L0 :: "string \<Rightarrow> string option" where
  "match_L0 [] = None"
| "match_L0 (c # cs) =
     (let seg = takeWhile (\<lambda>x. x \<noteq> CHR ''/'') (drop 4 (c # cs))
      in if take 4 (c # cs) = ''/L0/'' \<and> seg \<noteq> [] then Some seg else match_L0 cs)"

text \<open>
  \<open>fn: (url) => { const match = ...; if (!match) return null;
       try { return decodeURIComponent(match[1]) } catch { return null } }\<close>
\<close>

definition stripAwsTracking_fn :: "platform \<Rightarrow> string \<Rightarrow> jsvalue \<Rightarrow> js_error + string option" where
  "stripAwsTracking_fn P url cfg =
     (case match_L0 url of
        None \<Rightarrow> Inr None
      | Some m1 \<Rightarrow>
          (case decodeURIComponent P m1 of
             Inl e \<Rightarrow> Inr None
           | Inr s \<Rightarrow> Inr (Some s)))"

text \<open>The property \<open>to\<close> of the configuration value; \<open>None\<close> is \<open>undefined\<close>.\<close>

fun prop_to :: "jsvalue \<Rightarrow> string option" where
  "prop_to (JObject m) = m ''to''"
| "prop_to (JString s) = None"
| "prop_to JBuiltin = None"

text \<open>
  \<open>fn: (url, { to }) => { if (!to) return null;
       try { const parsed = new URL(url); parsed.hostname = to; return parsed.toString() }
       catch { return null } }\<close>
\<close>

definition hostnameReplace_fn :: "platform \<Rightarrow> string \<Rightarrow> jsvalue \<Rightarrow> js_error + string option" where
  "hostnameReplace_fn P url cfg =
     (case prop_to cfg of
        None \<Rightarrow> Inr None
      | Some t \<Rightarrow>
          if t = [] then Inr None
          else
            (case URL_new P url of
               Inl e \<Rightarrow> Inr None
             | Inr parsed \<Rightarrow>
                 (case URL_set_hostname P parsed t of
                    Inl e \<Rightarrow> Inr None
                  | Inr parsed' \<Rightarrow>
                      (case URL_toString P parsed' of
                         Inl e \<Rightarrow> Inr None
                       | Inr s \<Rightarrow> Inr (Some s)))))"

record TransformDef =
  key :: string
  label :: string
  fn :: "platform \<Rightarrow> string \<Rightarrow> jsvalue \<Rightarrow> js_error + string option"

definition TRANSFORMS :: "TransformDef list" where
  "TRANSFORMS =
    [\<lparr>key = ''stripAwsTracking'', label = ''Strip AWS tracking'', fn = stripAwsTracking_fn\<rparr>,
     \<lparr>key = ''hostnameReplace'', label = ''Replace hostname'', fn = hostnameReplace_fn\<rparr>]"

definition ALL_KEYS :: "string list" where
  "ALL_KEYS = map key TRANSFORMS"

text \<open>
  \<open>TRANSFORM_MAP = Object.fromEntries(TRANSFORMS.map(t => [t.key, t]))\<close>: its own
  properties. \<open>TRANSFORM_MAP[k]\<close> is a transform definition for an own property only.
\<close>

definition TRANSFORM_MAP :: "string \<rightharpoonup> TransformDef" where
  "TRANSFORM_MAP = map_of (map (\<lambda>t. (key t, t)) TRANSFORMS)"

text \<open>
  \<open>k in TRANSFORM_MAP\<close>: the operator \<open>in\<close> looks at the object and at its prototype
  chain, and the prototype of \<open>TRANSFORM_MAP\<close> is \<open>Object.prototype\<close>.
\<close>

definition in_TRANSFORM_MAP :: "string \<Rightarrow> bool" where
  "in_TRANSFORM_MAP k =
     (case TRANSFORM_MAP k of
        Some t \<Rightarrow> True
      | None \<Rightarrow> k \<in> set Object_prototype_keys)"

subsection \<open>The decoders\<close>

text \<open>\<open>!param\<close> of a \<open>string | null\<close>: true for \<open>null\<close> and for the empty string.\<close>

fun falsy :: "string option \<Rightarrow> bool" where
  "falsy None = True"
| "falsy (Some s) = (s = [])"

definition parseOrder :: "string option \<Rightarrow> string list" where
  "parseOrder param =
     (case param of
        None \<Rightarrow> ALL_KEYS
      | Some s \<Rightarrow>
          if falsy param then ALL_KEYS
          else
            (let keys = filter in_TRANSFORM_MAP (split CHR '','' s);
                 missing = filter (\<lambda>k. k \<notin> set keys) ALL_KEYS
             in keys @ missing))"

text \<open>
  A \<open>Set\<close> iterates in insertion order: it is a list without repetition, in the order
  of the first insertions.
\<close>

fun Set_add :: "'a list \<Rightarrow> 'a \<Rightarrow> 'a list" where
  "Set_add s x = (if x \<in> set s then s else s @ [x])"

definition Set_new :: "'a list \<Rightarrow> 'a list" where
  "Set_new xs = foldl Set_add [] xs"

definition Set_has :: "'a list \<Rightarrow> 'a \<Rightarrow> bool" where
  "Set_has s x \<longleftrightarrow> x \<in> set s"

definition Set_delete :: "'a list \<Rightarrow> 'a \<Rightarrow> 'a list" where
  "Set_delete s x = filter (\<lambda>y. y \<noteq> x) s"

definition parseActive :: "string option \<Rightarrow> string list" where
  "parseActive param =
     (case param of
        None \<Rightarrow> Set_new []
      | Some s \<Rightarrow>
          if falsy param then Set_new []
          else Set_new (filter in_TRANSFORM_MAP (split CHR '','' s)))"

text \<open>
  The \<open>configs\<close> object of \<open>parseConfigs\<close> starts as \<open>{}\<close>: no own property,
  prototype \<open>Object.prototype\<close>. The loop reads and writes \<open>configs[key]\<close> for
  every \<open>key\<close> that passes \<open>key in TRANSFORM_MAP\<close>, so the model keeps the own
  properties and the prototype apart: \<open>prototype = None\<close> is \<open>Object.prototype\<close>,
  \<open>prototype = Some m\<close> is an object \<open>m\<close> created by the loop (whose own prototype
  is \<open>Object.prototype\<close>).
\<close>

record configs_obj =
  own_props :: "string \<rightharpoonup> config"
  prototype :: "config option"

definition empty_configs :: configs_obj where
  "empty_configs = \<lparr>own_props = Map.empty, prototype = None\<rparr>"

text \<open>
  \<open>configs[k]\<close> as a read: the own property, else the property of the prototype object,
  else what \<open>Object.prototype\<close> has under that name (the accessor \<open>__proto__\<close> returns
  the prototype of \<open>configs\<close>); \<open>None\<close> is \<open>undefined\<close>.
\<close>

definition from_Object_prototype :: "configs_obj \<Rightarrow> string \<Rightarrow> jsvalue option" where
  "from_Object_prototype c k =
     (if k = ''__proto__'' then
        (case prototype c of None \<Rightarrow> Some JBuiltin | Some m \<Rightarrow> Some (JObject m))
      else if k \<in> set Object_prototype_keys then Some JBuiltin
      else None)"

definition configs_get :: "configs_obj \<Rightarrow> string \<Rightarrow> jsvalue option" where
  "configs_get c k =
     (case own_props c k of
        Some m \<Rightarrow> Some (JObject m)
      | None \<Rightarrow>
          (case prototype c of
             None \<Rightarrow> from_Object_prototype c k
           | Some pm \<Rightarrow>
               (case pm k of
                  Some s \<Rightarrow> Some (JString s)
                | None \<Rightarrow> from_Object_prototype c k)))"

text \<open>
  \<open>configs[k] = v\<close> as a write: an own property is created or overwritten, except that
  the name \<open>__proto__\<close> reaches the setter of \<open>Object.prototype\<close>, which replaces the
  prototype of \<open>configs\<close>, unless \<open>configs\<close> or its prototype object has a data
  property of that name.
\<close>

definition configs_set :: "configs_obj \<Rightarrow> string \<Rightarrow> config \<Rightarrow> configs_obj" where
  "configs_set c k v =
     (if k = ''__proto__'' \<and> own_props c k = None \<and>
         (case prototype c of None \<Rightarrow> True | Some pm \<Rightarrow> pm k = None)
      then c\<lparr>prototype := Some v\<rparr>
      else c\<lparr>own_props := (own_props c)(k \<mapsto> v)\<rparr>)"

text \<open>The decimal numeral of an array index, as a property name.\<close>

fun digit :: "nat \<Rightarrow> char" where
  "digit n = char_of (48 + n mod 10)"

function decimal :: "nat \<Rightarrow> string" where
  "decimal n = (if n < 10 then [digit n] else decimal (n div 10) @ [digit n])"
  by pat_completeness auto
termination
  by (relation "measure (\<lambda>n. n)") auto

text \<open>
  \<open>{ ...x }\<close>: the own enumerable properties of \<open>x\<close>. Nothing for \<open>undefined\<close> and
  for a built-in, the fields of an object, the code units of a string under their
  indices.
\<close>

fun string_props :: "nat \<Rightarrow> string \<Rightarrow> config" where
  "string_props i [] = Map.empty"
| "string_props i (c # cs) = (string_props (Suc i) cs)(decimal i \<mapsto> [c])"

fun spread :: "jsvalue option \<Rightarrow> config" where
  "spread None = Map.empty"
| "spread (Some (JObject m)) = m"
| "spread (Some (JString s)) = string_props 0 s"
| "spread (Some JBuiltin) = Map.empty"

text \<open>
  One iteration of \<open>for (const [param, value] of params.entries())\<close>; \<open>continue\<close>
  leaves \<open>configs\<close> as it is.
\<close>

definition parseConfigs_step :: "configs_obj \<Rightarrow> string \<times> string \<Rightarrow> configs_obj" where
  "parseConfigs_step configs pv =
     (let param = fst pv; val = snd pv;
          dotIdx = indexOf param CHR ''.''
      in if dotIdx = -1 then configs
         else
           (let k = slice param 0 dotIdx;
                field = slice_from param (dotIdx + 1)
            in if \<not> in_TRANSFORM_MAP k then configs
               else configs_set configs k ((spread (configs_get configs k))(field \<mapsto> val))))"

definition parseConfigs :: "URLSearchParams \<Rightarrow> configs_obj" where
  "parseConfigs params = foldl parseConfigs_step empty_configs params"

subsection \<open>The executor\<close>

record StepResult =
  step_key :: string
  step_result :: "string option"
  step_output :: string

text \<open>\<open>configs[key] ?? {}\<close>\<close>

definition config_or_empty :: "configs_obj \<Rightarrow> string \<Rightarrow> jsvalue" where
  "config_or_empty configs k =
     (case configs_get configs k of None \<Rightarrow> JObject Map.empty | Some v \<Rightarrow> v)"

text \<open>
  The callback of \<open>reduce\<close>. \<open>TRANSFORM_MAP[key]\<close> is a transform definition only for
  an own property; for any other key \<open>t.fn\<close> is not a function and the call throws
  \<open>TypeError\<close>.
\<close>

definition run_step :: "platform \<Rightarrow> string \<Rightarrow> configs_obj \<Rightarrow> StepResult list \<Rightarrow> string \<Rightarrow>
    js_error + StepResult list" where
  "run_step P url configs acc k =
     (let input = (if length acc > 0 then step_output (last acc) else url)
      in case TRANSFORM_MAP k of
           None \<Rightarrow> Inl TypeError
         | Some t \<Rightarrow>
             (case fn t P input (config_or_empty configs k) of
                Inl e \<Rightarrow> Inl e
              | Inr r \<Rightarrow>
                  Inr (acc @ [\<lparr>step_key = k, step_result = r,
                               step_output = (case r of None \<Rightarrow> input | Some s \<Rightarrow> s)\<rparr>])))"

text \<open>\<open>xs.reduce(callback, acc)\<close>; an exception of the callback ends the loop.\<close>

fun reduce :: "platform \<Rightarrow> string \<Rightarrow> configs_obj \<Rightarrow> StepResult list \<Rightarrow> string list \<Rightarrow>
    js_error + StepResult list" where
  "reduce P url configs acc [] = Inr acc"
| "reduce P url configs acc (k # ks) =
     (case run_step P url configs acc k of
        Inl e \<Rightarrow> Inl e
      | Inr acc' \<Rightarrow> reduce P url configs acc' ks)"

definition transformResults :: "platform \<Rightarrow> string \<Rightarrow> string list \<Rightarrow> string list \<Rightarrow> configs_obj \<Rightarrow>
    js_error + StepResult list" where
  "transformResults P url order selected configs =
     reduce P url configs [] (filter (Set_has selected) order)"

definition final_output :: "string \<Rightarrow> StepResult list \<Rightarrow> string" where
  "final_output url rs = (if length rs > 0 then step_output (last rs) else url)"

text \<open>
  What one entry of the result list must be for a step that received \<open>input\<close>: the
  \<open>result\<close> is what the transform of its key returned on \<open>input\<close> and the
  configuration of that key, the \<open>output\<close> is the result, or \<open>input\<close> when the result
  is \<open>null\<close>. \<open>steps_from\<close> chains the entries: each step receives the output of the
  one before it.
\<close>

definition step_ok :: "platform \<Rightarrow> configs_obj \<Rightarrow> string \<Rightarrow> StepResult \<Rightarrow> bool" where
  "step_ok P configs input r \<longleftrightarrow>
     (\<exists>t. TRANSFORM_MAP (step_key r) = Some t \<and>
          fn t P input (config_or_empty configs (step_key r)) = Inr (step_result r)) \<and>
     step_output r = (case step_result r of None \<Rightarrow> input | Some s \<Rightarrow> s)"

fun steps_from :: "platform \<Rightarrow> configs_obj \<Rightarrow> string \<Rightarrow> StepResult list \<Rightarrow> bool" where
  "steps_from P configs input [] = True"
| "steps_from P configs input (r # rs) =
     (step_ok P configs input r \<and> steps_from P configs (step_output r) rs)"

text \<open>The output of one render of the page for a query string.\<close>

definition UrlTool_output :: "platform \<Rightarrow> URLSearchParams \<Rightarrow> js_error + string" where
  "UrlTool_output P searchParams =
     (let url = (case sp_get searchParams ''u'' of None \<Rightarrow> [] | Some u \<Rightarrow> u);
          order = parseOrder (sp_get searchParams ''order'');
          selected = parseActive (sp_get searchParams ''active'');
          configs = parseConfigs searchParams
      in case transformResults P url order selected configs of
           Inl e \<Rightarrow> Inl e
         | Inr rs \<Rightarrow> Inr (final_output url rs))"

subsection \<open>The encoders\<close>

text \<open>
  Each handler maps the current query string to the next one; \<open>order\<close> and
  \<open>selected\<close> are those decoded from the same query string.
\<close>

definition toggle :: "URLSearchParams \<Rightarrow> string \<Rightarrow> URLSearchParams" where
  "toggle prev k =
     (let selected = parseActive (sp_get prev ''active'');
          next = (if Set_has selected k then Set_delete selected k else Set_add selected k)
      in if length next > 0 then sp_set prev ''active'' (join CHR '','' (map Some next))
         else sp_delete prev ''active'')"

definition setConfig :: "URLSearchParams \<Rightarrow> string \<Rightarrow> string \<Rightarrow> string \<Rightarrow> URLSearchParams" where
  "setConfig prev k field val =
     (if val \<noteq> [] then sp_set prev (k @ ''.'' @ field) val
      else sp_delete prev (k @ ''.'' @ field))"

datatype direction = Minus1 | Plus1

fun dir_int :: "direction \<Rightarrow> int" where
  "dir_int Minus1 = -1"
| "dir_int Plus1 = 1"

text \<open>
  \<open>next[i]\<close> of the copied array for an integer \<open>i\<close>: \<open>undefined\<close> outside the array;
  and the write \<open>next[i] = v\<close>, which for a negative \<open>i\<close> adds a property and leaves
  the elements alone. The code writes only indices below the length.
\<close>

definition arr_get :: "string option list \<Rightarrow> int \<Rightarrow> string option" where
  "arr_get xs i = (if 0 \<le> i \<and> i < int (length xs) then xs ! nat i else None)"

definition arr_set :: "string option list \<Rightarrow> int \<Rightarrow> string option \<Rightarrow> string option list" where
  "arr_set xs i v = (if 0 \<le> i \<and> i < int (length xs) then xs[nat i := v] else xs)"

definition move_next :: "string list \<Rightarrow> string \<Rightarrow> direction \<Rightarrow> string option list" where
  "move_next order k dir =
     (let idx = indexOf order k;
          swapWith = idx + dir_int dir;
          next = map Some order;
          a = arr_get next swapWith;
          b = arr_get next idx
      in arr_set (arr_set next idx a) swapWith b)"

definition move :: "URLSearchParams \<Rightarrow> string \<Rightarrow> direction \<Rightarrow> URLSearchParams" where
  "move prev k dir =
     (let order = parseOrder (sp_get prev ''order'');
          idx = indexOf order k;
          swapWith = idx + dir_int dir
      in if swapWith < 0 \<or> swapWith \<ge> int (length order) then prev
         else sp_set prev ''order'' (join CHR '','' (move_next order k dir)))"

subsection \<open>A platform for the examples\<close>

text \<open>
  The examples below need one concrete platform. \<open>sample_platform\<close> follows the
  standard (\<open>standard_platform\<close>) with three small parsers, each of which does what a
  browser does on the strings it accepts and rejects every other string:
  \<open>decodeURIComponent\<close> for escapes below \<open>%80\<close> (a higher escape starts a UTF-8
  sequence, which this sample does not decode); a host parser for domains of lower-case
  letters, digits and dots whose last label starts with a letter; and a URL parser for
  \<open>http://\<close> and \<open>https://\<close> URLs with such a domain, no credentials and no port, whose
  path, query and fragment use only characters that the URL parser copies unchanged, and
  for \<open>mailto:\<close> URLs over such characters. The path goes through the path state of the
  URL parser, which drops the dot segments. The general theorems do not depend on this
  sample.
\<close>

fun hex_digit :: "char \<Rightarrow> nat option" where
  "hex_digit c =
     (let n = of_char c :: nat
      in if 48 \<le> n \<and> n \<le> 57 then Some (n - 48)
         else if 65 \<le> n \<and> n \<le> 70 then Some (n - 55)
         else if 97 \<le> n \<and> n \<le> 102 then Some (n - 87)
         else None)"

fun sample_decode :: "string \<Rightarrow> js_error + string" where
  "sample_decode [] = Inr []"
| "sample_decode [c] = (if c = CHR ''%'' then Inl URIError else Inr [c])"
| "sample_decode [c, h] =
     (if c = CHR ''%'' then Inl URIError else map_sum id ((#) c) (sample_decode [h]))"
| "sample_decode (c # h # l # cs) =
     (if c = CHR ''%'' then
        (case (hex_digit h, hex_digit l) of
           (Some a, Some b) \<Rightarrow>
             if 16 * a + b < 128
             then map_sum id ((#) (char_of (16 * a + b))) (sample_decode cs)
             else Inl URIError
         | _ \<Rightarrow> Inl URIError)
      else map_sum id ((#) c) (sample_decode (h # l # cs)))"

definition lower_letter :: "char \<Rightarrow> bool" where
  "lower_letter c \<longleftrightarrow> 97 \<le> (of_char c :: nat) \<and> (of_char c :: nat) \<le> 122"

definition upper_letter :: "char \<Rightarrow> bool" where
  "upper_letter c \<longleftrightarrow> 65 \<le> (of_char c :: nat) \<and> (of_char c :: nat) \<le> 90"

definition digit_char :: "char \<Rightarrow> bool" where
  "digit_char c \<longleftrightarrow> 48 \<le> (of_char c :: nat) \<and> (of_char c :: nat) \<le> 57"

definition letter_or_digit :: "char \<Rightarrow> bool" where
  "letter_or_digit c \<longleftrightarrow> lower_letter c \<or> upper_letter c \<or> digit_char c"

definition sample_domain :: "string \<Rightarrow> bool" where
  "sample_domain h \<longleftrightarrow>
     list_all (\<lambda>l. l \<noteq> [] \<and> list_all (\<lambda>c. lower_letter c \<or> digit_char c) l)
       (split CHR ''.'' h) \<and>
     (case rev (split CHR ''.'' h) of (c # cs) # ls \<Rightarrow> lower_letter c | _ \<Rightarrow> False)"

definition sample_host_parser :: host_parser where
  "sample_host_parser h notSpecial = (if sample_domain h then Some h else None)"

text \<open>
  The path state of the URL parser on the segments of the path: \<open>..\<close> removes the last
  segment, \<open>.\<close> adds none, and either of them as the last segment leaves an empty one.
\<close>

fun path_state :: "string list \<Rightarrow> string list \<Rightarrow> string list" where
  "path_state [] path = path"
| "path_state (seg # rest) path =
     (if seg = ''..''
      then path_state rest (if rest = [] then butlast path @ [[]] else butlast path)
      else if seg = ''.''
      then path_state rest (if rest = [] then path @ [[]] else path)
      else path_state rest (path @ [seg]))"

fun strip_prefix :: "string \<Rightarrow> string \<Rightarrow> string option" where
  "strip_prefix [] s = Some s"
| "strip_prefix (p # ps) [] = None"
| "strip_prefix (p # ps) (c # cs) = (if p = c then strip_prefix ps cs else None)"

definition path_char :: "char \<Rightarrow> bool" where
  "path_char c \<longleftrightarrow> letter_or_digit c \<or> c \<in> set ''-._~/''"

definition query_char :: "char \<Rightarrow> bool" where
  "query_char c \<longleftrightarrow> letter_or_digit c \<or> c \<in> set ''-._~/=&+''"

definition mail_char :: "char \<Rightarrow> bool" where
  "mail_char c \<longleftrightarrow> letter_or_digit c \<or> c \<in> set ''-._@+''"

definition sample_special :: "string \<Rightarrow> string \<Rightarrow> js_error + URL" where
  "sample_special scheme rest =
     (let host = takeWhile (\<lambda>c. c \<notin> set ''/?#'') rest;
          after_host = dropWhile (\<lambda>c. c \<notin> set ''/?#'') rest;
          raw_path = takeWhile (\<lambda>c. c \<notin> set ''?#'') after_host;
          after_path = dropWhile (\<lambda>c. c \<notin> set ''?#'') after_host;
          query =
            (case after_path of
               [] \<Rightarrow> None
             | c # cs \<Rightarrow> if c = CHR ''?'' then Some (takeWhile (\<lambda>c. c \<noteq> CHR ''#'') cs) else None);
          fragment =
            (case dropWhile (\<lambda>c. c \<noteq> CHR ''#'') after_path of
               [] \<Rightarrow> None
             | c # cs \<Rightarrow> Some cs)
      in if sample_domain host \<and> list_all path_char raw_path \<and>
            list_all query_char (case query of None \<Rightarrow> [] | Some q \<Rightarrow> q) \<and>
            list_all query_char (case fragment of None \<Rightarrow> [] | Some f \<Rightarrow> f)
         then Inr \<lparr>url_scheme = scheme, url_username = [], url_password = [],
                   url_host = Some host, url_port = None,
                   url_path = Segments (path_state (split CHR ''/'' (drop 1 raw_path)) []),
                   url_query = query, url_fragment = fragment\<rparr>
         else Inl TypeError)"

definition sample_parser :: "string \<Rightarrow> js_error + URL" where
  "sample_parser input =
     (case strip_prefix ''https://'' input of
        Some rest \<Rightarrow> sample_special ''https'' rest
      | None \<Rightarrow>
          (case strip_prefix ''http://'' input of
             Some rest \<Rightarrow> sample_special ''http'' rest
           | None \<Rightarrow>
               (case strip_prefix ''mailto:'' input of
                  Some rest \<Rightarrow>
                    if list_all mail_char rest
                    then Inr \<lparr>url_scheme = ''mailto'', url_username = [], url_password = [],
                              url_host = None, url_port = None, url_path = Opaque rest,
                              url_query = None, url_fragment = None\<rparr>
                    else Inl TypeError
                | None \<Rightarrow> Inl TypeError)))"

definition sample_platform :: platform where
  "sample_platform = standard_platform sample_decode sample_parser sample_host_parser"

section \<open>Properties\<close>

subsection \<open>The registry\<close>

lemma ALL_KEYS_eq: "ALL_KEYS = [''stripAwsTracking'', ''hostnameReplace'']"
  by (simp add: ALL_KEYS_def TRANSFORMS_def)

lemma TRANSFORM_MAP_eq:
  "TRANSFORM_MAP k =
     (if k = ''stripAwsTracking''
      then Some \<lparr>key = ''stripAwsTracking'', label = ''Strip AWS tracking'',
                 fn = stripAwsTracking_fn\<rparr>
      else if k = ''hostnameReplace''
      then Some \<lparr>key = ''hostnameReplace'', label = ''Replace hostname'',
                 fn = hostnameReplace_fn\<rparr>
      else None)"
  by (simp add: TRANSFORM_MAP_def TRANSFORMS_def)

lemma TRANSFORM_MAP_dom: "TRANSFORM_MAP k \<noteq> None \<longleftrightarrow> k \<in> set ALL_KEYS"
  by (auto simp: TRANSFORM_MAP_eq ALL_KEYS_eq)

lemma in_TRANSFORM_MAP_iff:
  "in_TRANSFORM_MAP k \<longleftrightarrow> k \<in> set ALL_KEYS \<or> k \<in> set Object_prototype_keys"
  using TRANSFORM_MAP_dom [of k] by (auto simp: in_TRANSFORM_MAP_def split: option.splits)

lemma ALL_KEYS_not_inherited: "k \<in> set ALL_KEYS \<Longrightarrow> k \<notin> set Object_prototype_keys"
  by (auto simp: ALL_KEYS_eq Object_prototype_keys_def)

subsection \<open>The reference transforms\<close>

lemma stripAwsTracking_fn_total: "\<exists>r. stripAwsTracking_fn P url cfg = Inr r"
  by (simp add: stripAwsTracking_fn_def split: option.split sum.split)

lemma hostnameReplace_fn_total: "\<exists>r. hostnameReplace_fn P url cfg = Inr r"
  by (simp add: hostnameReplace_fn_def split: option.split sum.split)

text \<open>
  Claim C10. The result of \<open>stripAwsTracking\<close> does not depend on its configuration
  argument: on the same input it is the same for any two configurations.
\<close>

theorem stripAwsTracking_ignores_config:
  "stripAwsTracking_fn P url cfg1 = stripAwsTracking_fn P url cfg2"
  by (simp add: stripAwsTracking_fn_def)

subsection \<open>\<open>parseOrder\<close>\<close>

lemma parseOrder_absent: "parseOrder None = ALL_KEYS"
  by (simp add: parseOrder_def)

lemma parseOrder_empty: "parseOrder (Some []) = ALL_KEYS"
  by (simp add: parseOrder_def)

lemma parseOrder_Some:
  "parseOrder (Some raw) =
     filter in_TRANSFORM_MAP (split CHR '','' raw)
     @ filter (\<lambda>k. k \<notin> set (filter in_TRANSFORM_MAP (split CHR '','' raw))) ALL_KEYS"
  by (cases raw)
    (simp_all add: parseOrder_def Let_def in_TRANSFORM_MAP_iff ALL_KEYS_eq
      Object_prototype_keys_def)

lemma filter_known:
  "\<forall>s \<in> set xs. s \<notin> set Object_prototype_keys \<Longrightarrow>
     filter in_TRANSFORM_MAP xs = filter (\<lambda>s. s \<in> set ALL_KEYS) xs"
  by (rule filter_cong) (auto simp: in_TRANSFORM_MAP_iff)

text \<open>
  Claim C1, as the code has it. \<open>parseOrder\<close> returns \<open>ALL_KEYS\<close> for an absent and
  for an empty parameter. For a raw string none of whose segments is a property name of
  \<open>Object.prototype\<close>, it returns the segments that are registered keys, in their order
  in the raw string and as often as they occur there, followed by the registered keys
  that do not occur, in registration order. The result holds exactly the keys of
  \<open>ALL_KEYS\<close>; it has no duplicates and the length of \<open>ALL_KEYS\<close> when no registered
  key is repeated in the raw string.
\<close>

theorem parseOrder_canonical:
  "parseOrder None = ALL_KEYS \<and> parseOrder (Some []) = ALL_KEYS \<and>
   ((\<forall>s \<in> set (split CHR '','' raw). s \<notin> set Object_prototype_keys) \<longrightarrow>
      (let known = filter (\<lambda>s. s \<in> set ALL_KEYS) (split CHR '','' raw)
       in parseOrder (Some raw) = known @ filter (\<lambda>k. k \<notin> set known) ALL_KEYS \<and>
          set (parseOrder (Some raw)) = set ALL_KEYS \<and>
          (distinct known \<longrightarrow>
             distinct (parseOrder (Some raw)) \<and>
             length (parseOrder (Some raw)) = length ALL_KEYS)))"
proof (intro conjI impI)
  show "parseOrder None = ALL_KEYS" by (rule parseOrder_absent)
  show "parseOrder (Some []) = ALL_KEYS" by (rule parseOrder_empty)
next
  assume h: "\<forall>s \<in> set (split CHR '','' raw). s \<notin> set Object_prototype_keys"
  define known where "known = filter (\<lambda>s. s \<in> set ALL_KEYS) (split CHR '','' raw)"
  have eq: "parseOrder (Some raw) = known @ filter (\<lambda>k. k \<notin> set known) ALL_KEYS"
    by (simp add: parseOrder_Some filter_known [OF h] known_def)
  have sub: "set known \<subseteq> set ALL_KEYS"
    by (auto simp: known_def)
  have st: "set (parseOrder (Some raw)) = set ALL_KEYS"
    using sub by (auto simp: eq)
  have d: "distinct (parseOrder (Some raw))" if "distinct known"
    using that by (auto simp: eq ALL_KEYS_eq)
  have dk: "distinct ALL_KEYS" by (simp add: ALL_KEYS_eq)
  have l: "length (parseOrder (Some raw)) = length ALL_KEYS" if "distinct known"
    using d [OF that] st dk by (metis distinct_card)
  show "let known = filter (\<lambda>s. s \<in> set ALL_KEYS) (split CHR '','' raw)
       in parseOrder (Some raw) = known @ filter (\<lambda>k. k \<notin> set known) ALL_KEYS \<and>
          set (parseOrder (Some raw)) = set ALL_KEYS \<and>
          (distinct known \<longrightarrow>
             distinct (parseOrder (Some raw)) \<and>
             length (parseOrder (Some raw)) = length ALL_KEYS)"
    unfolding Let_def known_def [symmetric] using eq st d l by blast
qed

text \<open>
  The raw string \<open>x,hostnameReplace,,y\<close> names one of the two keys among unknown and
  empty segments: the other key is appended.
\<close>

theorem parseOrder_canonical_witness:
  "parseOrder (Some ''x,hostnameReplace,,y'') = [''hostnameReplace'', ''stripAwsTracking''] \<and>
   set (parseOrder (Some ''x,hostnameReplace,,y'')) = set ALL_KEYS \<and>
   distinct (parseOrder (Some ''x,hostnameReplace,,y'')) \<and>
   length (parseOrder (Some ''x,hostnameReplace,,y'')) = length ALL_KEYS"
  using parseOrder_canonical [of "''x,hostnameReplace,,y''"]
  by (auto simp add: ALL_KEYS_eq Object_prototype_keys_def Let_def)

text \<open>
  A key that the raw string repeats stays repeated: the result is longer than
  \<open>ALL_KEYS\<close> and is not a permutation of it.
\<close>

theorem parseOrder_keeps_duplicates:
  "parseOrder (Some ''hostnameReplace,hostnameReplace'') =
     [''hostnameReplace'', ''hostnameReplace'', ''stripAwsTracking''] \<and>
   \<not> distinct (parseOrder (Some ''hostnameReplace,hostnameReplace'')) \<and>
   length (parseOrder (Some ''hostnameReplace,hostnameReplace'')) \<noteq> length ALL_KEYS"
  by (simp add: parseOrder_Some in_TRANSFORM_MAP_iff ALL_KEYS_eq Object_prototype_keys_def)

subsection \<open>\<open>parseActive\<close>\<close>

lemma foldl_Set_add:
  "distinct acc \<Longrightarrow>
     distinct (foldl Set_add acc xs) \<and> set (foldl Set_add acc xs) = set acc \<union> set xs"
  by (induction xs arbitrary: acc) auto

lemma Set_new_set: "set (Set_new xs) = set xs"
  using foldl_Set_add [of "[]" xs] by (simp add: Set_new_def)

lemma Set_new_distinct: "distinct (Set_new xs)"
  using foldl_Set_add [of "[]" xs] by (simp add: Set_new_def)

text \<open>
  What does hold of \<open>parseActive\<close>: an absent or empty parameter gives the empty set,
  no member is repeated, and every member is a registered key or a property name of
  \<open>Object.prototype\<close>.
\<close>

lemma parseActive_absent: "parseActive None = [] \<and> parseActive (Some []) = []"
  by (simp add: parseActive_def Set_new_def)

lemma parseActive_distinct: "distinct (parseActive param)"
  by (simp add: parseActive_def Set_new_distinct split: option.split)

lemma parseActive_members:
  "set (parseActive param) \<subseteq> set ALL_KEYS \<union> set Object_prototype_keys"
  by (auto simp: parseActive_def Set_new_set in_TRANSFORM_MAP_iff split: option.split)

text \<open>
  Claim C3 at the raw string \<open>toString\<close>. The token is not a registered key, yet
  \<open>"toString" in TRANSFORM_MAP\<close> holds through the prototype, and the token is a
  member of the decoded set.
\<close>

theorem parseActive_inherited_name:
  "parseActive (Some ''toString'') = [''toString''] \<and> ''toString'' \<notin> set ALL_KEYS"
  by (simp add: parseActive_def Set_new_def in_TRANSFORM_MAP_iff ALL_KEYS_eq
      Object_prototype_keys_def)

subsection \<open>The executor\<close>

lemma fn_total:
  "TRANSFORM_MAP k = Some t \<Longrightarrow> \<exists>r. fn t P input cfg = Inr r"
  using stripAwsTracking_fn_total hostnameReplace_fn_total
  by (auto simp: TRANSFORM_MAP_eq split: if_splits)

lemma run_step_known:
  assumes "k \<in> set ALL_KEYS"
  shows "\<exists>r. run_step P url configs acc k = Inr (acc @ [r]) \<and> step_key r = k \<and>
            step_ok P configs (if acc = [] then url else step_output (last acc)) r"
proof -
  from assms obtain t where t: "TRANSFORM_MAP k = Some t"
    using TRANSFORM_MAP_dom [of k] by auto
  define input where "input = (if acc = [] then url else step_output (last acc))"
  from fn_total [OF t] obtain res
    where res: "fn t P input (config_or_empty configs k) = Inr res" by blast
  define r where "r = \<lparr>step_key = k, step_result = res,
      step_output = (case res of None \<Rightarrow> input | Some s \<Rightarrow> s)\<rparr>"
  have "run_step P url configs acc k = Inr (acc @ [r])"
    using t res unfolding input_def r_def by (auto simp: run_step_def Let_def)
  moreover have "step_key r = k" by (simp add: r_def)
  moreover have "step_ok P configs input r"
    using t res by (simp add: step_ok_def r_def)
  ultimately show ?thesis unfolding input_def by blast
qed

lemma reduce_known:
  "set ks \<subseteq> set ALL_KEYS \<Longrightarrow>
   \<exists>rs. reduce P url configs acc ks = Inr (acc @ rs) \<and> map step_key rs = ks \<and>
        steps_from P configs (if acc = [] then url else step_output (last acc)) rs"
proof (induction ks arbitrary: acc)
  case Nil
  then show ?case by simp
next
  case (Cons k ks)
  from Cons.prems have k: "k \<in> set ALL_KEYS" and ks: "set ks \<subseteq> set ALL_KEYS" by auto
  from run_step_known [OF k] obtain r
    where r: "run_step P url configs acc k = Inr (acc @ [r])" "step_key r = k"
      "step_ok P configs (if acc = [] then url else step_output (last acc)) r"
    by blast
  from Cons.IH [OF ks, of "acc @ [r]"] obtain rs
    where rs: "reduce P url configs (acc @ [r]) ks = Inr ((acc @ [r]) @ rs)"
      "map step_key rs = ks" "steps_from P configs (step_output r) rs"
    by auto
  have "reduce P url configs acc (k # ks) = Inr (acc @ (r # rs))"
    using r(1) rs(1) by simp
  moreover have "map step_key (r # rs) = k # ks" using r(2) rs(2) by simp
  moreover have "steps_from P configs (if acc = [] then url else step_output (last acc)) (r # rs)"
    using r(3) rs(3) by simp
  ultimately show ?case by (intro exI [of _ "r # rs"]) simp
qed

lemma steps_from_nth:
  "steps_from P configs input rs \<Longrightarrow> i < length rs \<Longrightarrow>
   step_ok P configs (if i = 0 then input else step_output (rs ! (i - 1))) (rs ! i)"
proof (induction rs arbitrary: input i)
  case Nil
  then show ?case by simp
next
  case (Cons r rs)
  show ?case
  proof (cases i)
    case 0
    with Cons.prems show ?thesis by simp
  next
    case (Suc j)
    with Cons.prems have "steps_from P configs (step_output r) rs" "j < length rs" by auto
    from Cons.IH [OF this] show ?thesis
      using Suc by (cases j) auto
  qed
qed

text \<open>
  Claim C8. Whatever the built-ins of the platform do (each of them may throw), and for
  every input string and configuration value, both reference transforms complete
  normally, with a string or \<open>null\<close>: no exception leaves a transform. So a run
  over registered keys, from any list of earlier results, completes normally.
\<close>

theorem transforms_never_throw:
  "(\<exists>r. stripAwsTracking_fn P url cfg = Inr r) \<and>
   (\<exists>r. hostnameReplace_fn P url cfg = Inr r) \<and>
   (\<exists>rs. reduce P url configs acc (filter (\<lambda>k. k \<in> set ALL_KEYS) ks) = Inr rs)"
proof (intro conjI)
  show "\<exists>r. stripAwsTracking_fn P url cfg = Inr r" by (rule stripAwsTracking_fn_total)
  show "\<exists>r. hostnameReplace_fn P url cfg = Inr r" by (rule hostnameReplace_fn_total)
  have "set (filter (\<lambda>k. k \<in> set ALL_KEYS) ks) \<subseteq> set ALL_KEYS" by auto
  from reduce_known [OF this, of P url configs acc]
  show "\<exists>rs. reduce P url configs acc (filter (\<lambda>k. k \<in> set ALL_KEYS) ks) = Inr rs"
    by blast
qed

text \<open>
  Claim C2. For a pipeline state (its active set holds registered keys only) the run
  completes with a result list \<open>rs\<close> such that: the keys of \<open>rs\<close> are the keys of
  \<open>order\<close> that are active, in the order of \<open>order\<close>; step \<open>i\<close> received the input
  string when \<open>i = 0\<close> and the output of step \<open>i - 1\<close> otherwise, its result is what
  its transform returned on that value, and its output is that result, or the value it
  received when the result is \<open>null\<close>; the final output is the output of the last step,
  or the input string when there is no step.
\<close>

theorem transformResults_fold:
  assumes "set selected \<subseteq> set ALL_KEYS"
  shows "\<exists>rs. transformResults P url order selected configs = Inr rs \<and>
           map step_key rs = filter (\<lambda>k. k \<in> set selected) order \<and>
           (\<forall>i < length rs.
              step_ok P configs (if i = 0 then url else step_output (rs ! (i - 1))) (rs ! i)) \<and>
           final_output url rs = (if rs = [] then url else step_output (last rs))"
proof -
  have "set (filter (Set_has selected) order) \<subseteq> set ALL_KEYS"
    using assms by (auto simp: Set_has_def)
  from reduce_known [OF this, of P url configs "[]"] obtain rs
    where rs: "reduce P url configs [] (filter (Set_has selected) order) = Inr rs"
      "map step_key rs = filter (Set_has selected) order" "steps_from P configs url rs"
    by auto
  have "transformResults P url order selected configs = Inr rs"
    using rs(1) by (simp add: transformResults_def)
  moreover have "map step_key rs = filter (\<lambda>k. k \<in> set selected) order"
    using rs(2) by (simp add: Set_has_def [abs_def])
  moreover have "\<forall>i < length rs.
      step_ok P configs (if i = 0 then url else step_output (rs ! (i - 1))) (rs ! i)"
    using steps_from_nth [OF rs(3)] by blast
  moreover have "final_output url rs = (if rs = [] then url else step_output (last rs))"
    by (simp add: final_output_def)
  ultimately show ?thesis by blast
qed

text \<open>
  Both transforms active, in registration order, on a tracking link, with
  \<open>hostnameReplace.to=foo.com\<close>.
\<close>

theorem transformResults_fold_witness:
  "set [''hostnameReplace'', ''stripAwsTracking''] \<subseteq> set ALL_KEYS \<and>
   (\<exists>rs. transformResults sample_platform ''https://ex.com/L0/https%3A%2F%2Fexample.com''
            [''stripAwsTracking'', ''hostnameReplace''] [''hostnameReplace'', ''stripAwsTracking'']
            (parseConfigs [(''hostnameReplace.to'', ''foo.com'')]) = Inr rs \<and>
      map step_key rs = filter (\<lambda>k. k \<in> set [''hostnameReplace'', ''stripAwsTracking''])
         [''stripAwsTracking'', ''hostnameReplace''] \<and>
      (\<forall>i < length rs.
         step_ok sample_platform (parseConfigs [(''hostnameReplace.to'', ''foo.com'')])
           (if i = 0 then ''https://ex.com/L0/https%3A%2F%2Fexample.com''
            else step_output (rs ! (i - 1))) (rs ! i)) \<and>
      final_output ''https://ex.com/L0/https%3A%2F%2Fexample.com'' rs =
        (if rs = [] then ''https://ex.com/L0/https%3A%2F%2Fexample.com''
         else step_output (last rs)))"
proof -
  have h: "set [''hostnameReplace'', ''stripAwsTracking''] \<subseteq> set ALL_KEYS"
    by (simp add: ALL_KEYS_eq)
  from h transformResults_fold [OF h] show ?thesis by (rule conjI)
qed

text \<open>The run of that example, step by step.\<close>

lemma sample_config:
  "config_or_empty (parseConfigs [(''hostnameReplace.to'', ''foo.com'')]) ''hostnameReplace'' =
     JObject [''to'' \<mapsto> ''foo.com'']"
  by (simp add: parseConfigs_def parseConfigs_step_def empty_configs_def configs_set_def
      configs_get_def from_Object_prototype_def in_TRANSFORM_MAP_iff ALL_KEYS_eq slice_def
      slice_from_def Let_def config_or_empty_def)

lemma sample_decode_example:
  "sample_decode ''https%3A%2F%2Fexample.com'' = Inr ''https://example.com''"
  by code_simp

text \<open>The sample platform on the inputs of the examples.\<close>

lemma sample_replace_root:
  "hostnameReplace_fn sample_platform ''https://example.com'' (JObject [''to'' \<mapsto> ''foo.com'']) =
     Inr (Some ''https://foo.com/'')"
  by code_simp

lemma sample_replace:
  "hostnameReplace_fn sample_platform ''https://bar.com/path?x=1''
       (JObject [''to'' \<mapsto> ''foo.com'']) = Inr (Some ''https://foo.com/path?x=1'')"
  by code_simp

lemma sample_parser_bar:
  "sample_parser ''https://bar.com/path?x=1'' =
     Inr \<lparr>url_scheme = ''https'', url_username = [], url_password = [],
          url_host = Some ''bar.com'', url_port = None, url_path = Segments [''path''],
          url_query = Some ''x=1'', url_fragment = None\<rparr>"
  by code_simp

lemma sample_parser_throws: "sample_parser ''not a url'' = Inl TypeError"
  by code_simp

lemma sample_host_foo: "sample_host_parser ''foo.com'' False = Some ''foo.com''"
  by code_simp

lemma plain_host_foo: "plain_host ''foo.com''"
  by code_simp

lemma strip_foo: "strip_tab_newline ''foo.com'' = ''foo.com''"
  by code_simp

lemma sample_parser_mail:
  "sample_parser ''mailto:a@b.com'' =
     Inr \<lparr>url_scheme = ''mailto'', url_username = [], url_password = [],
          url_host = None, url_port = None, url_path = Opaque ''a@b.com'',
          url_query = None, url_fragment = None\<rparr>"
  by code_simp

lemma sample_setter_stops:
  "serialize (hostname_setter sample_host_parser
      \<lparr>url_scheme = ''https'', url_username = [], url_password = [],
       url_host = Some ''bar.com'', url_port = None, url_path = Segments [''path''],
       url_query = Some ''x=1'', url_fragment = None\<rparr> ''foo.com/x'') =
   ''https://foo.com/path?x=1''"
  by code_simp

lemma sample_strip:
  "stripAwsTracking_fn sample_platform ''https://ex.com/L0/https%3A%2F%2Fexample.com'' cfg =
     Inr (Some ''https://example.com'')"
  by (simp add: stripAwsTracking_fn_def sample_platform_def standard_platform_def
      sample_decode_example del: sample_decode.simps)

lemma sample_run:
  "transformResults sample_platform ''https://ex.com/L0/https%3A%2F%2Fexample.com''
     [''stripAwsTracking'', ''hostnameReplace''] [''hostnameReplace'', ''stripAwsTracking'']
     (parseConfigs [(''hostnameReplace.to'', ''foo.com'')]) =
   Inr [\<lparr>step_key = ''stripAwsTracking'', step_result = Some ''https://example.com'',
          step_output = ''https://example.com''\<rparr>,
        \<lparr>step_key = ''hostnameReplace'', step_result = Some ''https://foo.com/'',
          step_output = ''https://foo.com/''\<rparr>]"
  by (simp add: transformResults_def Set_has_def run_step_def TRANSFORM_MAP_eq sample_config
      sample_strip sample_replace_root Let_def)

subsection \<open>\<open>parseConfigs\<close>\<close>


lemma indexOf_ge: "indexOf xs x \<ge> -1"
  by (induction xs) (auto simp: Let_def)

lemma indexOf_absent: "indexOf xs x = -1 \<longleftrightarrow> x \<notin> set xs"
proof (induction xs)
  case Nil
  then show ?case by simp
next
  case (Cons y ys)
  have "indexOf ys x \<ge> -1" by (rule indexOf_ge)
  then show ?case using Cons.IH by (auto simp: Let_def)
qed

lemma indexOf_append_found:
  "x \<notin> set xs \<Longrightarrow> indexOf (xs @ x # ys) x = int (length xs)"
  by (induction xs) (auto simp: Let_def)

lemma indexOf_split:
  "indexOf xs x \<noteq> -1 \<Longrightarrow>
     xs = take (nat (indexOf xs x)) xs @ x # drop (nat (indexOf xs x + 1)) xs"
proof (induction xs)
  case Nil
  then show ?case by simp
next
  case (Cons y ys)
  show ?case
  proof (cases "y = x")
    case True
    then show ?thesis by simp
  next
    case False
    with Cons.prems have ne: "indexOf ys x \<noteq> -1" by (auto simp: Let_def)
    have ge: "indexOf ys x \<ge> 0" using ne indexOf_ge [of ys x] by linarith
    have eq: "indexOf (y # ys) x = indexOf ys x + 1" using False ne by (simp add: Let_def)
    have "nat (indexOf ys x + 1) = Suc (nat (indexOf ys x))" using ge by linarith
    moreover have "nat (indexOf ys x + 1 + 1) = Suc (nat (indexOf ys x + 1))" using ge by linarith
    ultimately show ?thesis using Cons.IH [OF ne] eq by simp
  qed
qed

text \<open>The name of a parameter that the loop decodes to the pair (k, field).\<close>

lemma param_name_decoded:
  assumes "indexOf p CHR ''.'' \<noteq> -1"
  shows "p = slice p 0 (indexOf p CHR ''.'') @ ''.'' @ slice_from p (indexOf p CHR ''.'' + 1)"
  using indexOf_split [OF assms] by (simp add: slice_def slice_from_def)

lemma param_name_decode:
  assumes "CHR ''.'' \<notin> set k"
  shows "indexOf (k @ ''.'' @ f) CHR ''.'' = int (length k)"
    and "slice (k @ ''.'' @ f) 0 (int (length k)) = k"
    and "slice_from (k @ ''.'' @ f) (int (length k) + 1) = f"
proof -
  show "indexOf (k @ ''.'' @ f) CHR ''.'' = int (length k)"
    using indexOf_append_found [OF assms, of f] by simp
  show "slice (k @ ''.'' @ f) 0 (int (length k)) = k" by (simp add: slice_def)
  have "nat (int (length k) + 1) = Suc (length k)" by simp
  then show "slice_from (k @ ''.'' @ f) (int (length k) + 1) = f"
    by (simp add: slice_from_def)
qed

lemma ALL_KEYS_no_dot: "k \<in> set ALL_KEYS \<Longrightarrow> CHR ''.'' \<notin> set k"
  by (auto simp: ALL_KEYS_eq)

lemma ALL_KEYS_not_proto: "k \<in> set ALL_KEYS \<Longrightarrow> k \<noteq> ''__proto__''"
  by (auto simp: ALL_KEYS_eq)

lemma own_props_configs_set:
  "K \<noteq> ''__proto__'' \<Longrightarrow>
     own_props (configs_set c k v) K = (if k = K then Some v else own_props c K)"
  by (auto simp: configs_set_def)

text \<open>A parameter of a registered key records its value.\<close>

lemma parseConfigs_step_records:
  assumes "K \<in> set ALL_KEYS"
  shows "\<exists>m. own_props (parseConfigs_step c (K @ ''.'' @ f, v)) K = Some m \<and> m f = Some v"
  using assms param_name_decode [OF ALL_KEYS_no_dot [OF assms], of f]
  by (simp add: parseConfigs_step_def Let_def in_TRANSFORM_MAP_iff
      own_props_configs_set [OF ALL_KEYS_not_proto [OF assms]])

text \<open>A parameter of another name leaves a recorded value alone.\<close>

lemma parseConfigs_step_keeps:
  assumes K: "K \<in> set ALL_KEYS"
    and m: "own_props c K = Some m" "m f = Some v"
    and n: "n \<noteq> K @ ''.'' @ f"
  shows "\<exists>m'. own_props (parseConfigs_step c (n, w)) K = Some m' \<and> m' f = Some v"
proof (cases "indexOf n CHR ''.'' = -1 \<or> \<not> in_TRANSFORM_MAP (slice n 0 (indexOf n CHR ''.''))")
  case True
  then have "parseConfigs_step c (n, w) = c"
    by (auto simp: parseConfigs_step_def Let_def)
  with m show ?thesis by simp
next
  case False
  define k where "k = slice n 0 (indexOf n CHR ''.'')"
  define field where "field = slice_from n (indexOf n CHR ''.'' + 1)"
  from False have dot: "indexOf n CHR ''.'' \<noteq> -1" and known: "in_TRANSFORM_MAP k"
    by (auto simp: k_def)
  have step: "parseConfigs_step c (n, w) =
      configs_set c k ((spread (configs_get c k))(field \<mapsto> w))"
    using dot known by (simp add: parseConfigs_step_def Let_def k_def field_def)
  have name: "n = k @ ''.'' @ field"
    using param_name_decoded [OF dot] by (simp add: k_def field_def)
  show ?thesis
  proof (cases "k = K")
    case True
    with name n have "field \<noteq> f" by auto
    moreover have "spread (configs_get c k) = m"
      using True m(1) by (simp add: configs_get_def)
    ultimately show ?thesis
      using True m(2) by (simp add: step own_props_configs_set [OF ALL_KEYS_not_proto [OF K]])
  next
    case False
    then show ?thesis
      using m by (simp add: step own_props_configs_set [OF ALL_KEYS_not_proto [OF K]])
  qed
qed

lemma foldl_parseConfigs_step_keeps:
  assumes K: "K \<in> set ALL_KEYS"
  shows "own_props c K = Some m \<Longrightarrow> m f = Some v \<Longrightarrow>
     \<forall>(n, w) \<in> set qs. n \<noteq> K @ ''.'' @ f \<Longrightarrow>
     \<exists>m'. own_props (foldl parseConfigs_step c qs) K = Some m' \<and> m' f = Some v"
proof (induction qs arbitrary: c m)
  case Nil
  then show ?case by simp
next
  case (Cons q qs)
  obtain n w where q: "q = (n, w)" by (cases q)
  from Cons.prems(3) q have n: "n \<noteq> K @ ''.'' @ f"
    and rest: "\<forall>(n, w) \<in> set qs. n \<noteq> K @ ''.'' @ f" by auto
  from parseConfigs_step_keeps [OF K Cons.prems(1,2) n, of w] obtain m'
    where "own_props (parseConfigs_step c (n, w)) K = Some m'" "m' f = Some v" by blast
  from Cons.IH [OF this rest] show ?case by (simp add: q)
qed

lemma parseConfigs_last:
  assumes "K \<in> set ALL_KEYS" and "\<forall>(n, w) \<in> set qs. n \<noteq> K @ ''.'' @ f"
  shows "\<exists>m. own_props (parseConfigs (ps @ (K @ ''.'' @ f, v) # qs)) K = Some m \<and> m f = Some v"
proof -
  define c where "c = foldl parseConfigs_step empty_configs ps"
  from parseConfigs_step_records [OF assms(1), of c f v] obtain m
    where "own_props (parseConfigs_step c (K @ ''.'' @ f, v)) K = Some m" "m f = Some v"
    by blast
  from foldl_parseConfigs_step_keeps [OF assms(1) this assms(2)]
  show ?thesis by (simp add: parseConfigs_def c_def)
qed


lemma parseConfigs_step_ignored:
  "indexOf n CHR ''.'' = -1 \<or> \<not> in_TRANSFORM_MAP (slice n 0 (indexOf n CHR ''.'')) \<Longrightarrow>
     parseConfigs_step c (n, w) = c"
  by (auto simp: parseConfigs_step_def Let_def)

text \<open>
  Claim C9. Let \<open>K\<close> be a registered key and let the parameter \<open>K.f\<close> with value
  \<open>v\<close> be followed only by parameters of other names (so it is the last parameter that
  decodes to the pair \<open>(K, f)\<close>), whatever precedes it. Then \<open>configs[K][f]\<close> is
  \<open>v\<close>: a later occurrence overwrites an earlier one, and parameters for other fields of
  \<open>K\<close>, before or after, do not remove the value.
\<close>

theorem parseConfigs_last_wins:
  assumes "K \<in> set ALL_KEYS" and "\<forall>(n, w) \<in> set qs. n \<noteq> K @ ''.'' @ f"
  shows "\<exists>m. own_props (parseConfigs (ps @ (K @ ''.'' @ f, v) # qs)) K = Some m \<and> m f = Some v"
  using assms by (rule parseConfigs_last)

text \<open>
  Two parameters \<open>hostnameReplace.to\<close> among two other fields of the same key: the
  second value of \<open>to\<close> is recorded, and the field \<open>x\<close> written in between is kept.
\<close>

theorem parseConfigs_last_wins_witness:
  "(\<exists>m. own_props (parseConfigs
           [(''hostnameReplace.to'', ''a.com''), (''hostnameReplace.x'', ''1''),
            (''hostnameReplace.to'', ''b.com''), (''hostnameReplace.y'', ''2'')])
         ''hostnameReplace'' = Some m \<and> m ''to'' = Some ''b.com'') \<and>
   (\<exists>m. own_props (parseConfigs
           [(''hostnameReplace.to'', ''a.com''), (''hostnameReplace.x'', ''1''),
            (''hostnameReplace.to'', ''b.com''), (''hostnameReplace.y'', ''2'')])
         ''hostnameReplace'' = Some m \<and> m ''x'' = Some ''1'')"
  using
    parseConfigs_last_wins [of "''hostnameReplace''" "[(''hostnameReplace.y'', ''2'')]" "''to''"
      "[(''hostnameReplace.to'', ''a.com''), (''hostnameReplace.x'', ''1'')]" "''b.com''"]
    parseConfigs_last_wins [of "''hostnameReplace''"
      "[(''hostnameReplace.to'', ''b.com''), (''hostnameReplace.y'', ''2'')]" "''x''"
      "[(''hostnameReplace.to'', ''a.com'')]" "''1''"]
  by (simp add: ALL_KEYS_eq)

lemma parseConfigs_single:
  "own_props (parseConfigs [(''hostnameReplace.to'', v)]) ''hostnameReplace'' = Some [''to'' \<mapsto> v]"
  by (simp add: parseConfigs_def parseConfigs_step_def empty_configs_def configs_set_def
      configs_get_def from_Object_prototype_def in_TRANSFORM_MAP_iff ALL_KEYS_eq slice_def
      slice_from_def Let_def)


lemma hostnameReplace_fn_falsy:
  "falsy (prop_to cfg) \<Longrightarrow> hostnameReplace_fn P url cfg = Inr None"
  by (cases "prop_to cfg") (simp_all add: hostnameReplace_fn_def)



text \<open>
  Claim C4 at the parameter \<open>constructor.bar=baz\<close>. The prefix is not a registered
  key, yet \<open>"constructor" in TRANSFORM_MAP\<close> holds through the prototype, and the
  parameter is recorded in the decoded configuration object.
\<close>

theorem parseConfigs_inherited_prefix:
  "own_props (parseConfigs [(''constructor.bar'', ''baz'')]) ''constructor'' =
     Some [''bar'' \<mapsto> ''baz''] \<and>
   ''constructor'' \<notin> set ALL_KEYS"
  by (simp add: parseConfigs_def parseConfigs_step_def empty_configs_def configs_set_def
      configs_get_def from_Object_prototype_def in_TRANSFORM_MAP_iff ALL_KEYS_eq slice_def
      slice_from_def Let_def Object_prototype_keys_def)

subsection \<open>The encoders\<close>

lemma sp_get_sp_delete: "sp_get (sp_delete ps n) n = None"
  by (induction ps) (auto simp: sp_delete_def)

lemma sp_get_sp_set: "sp_get (sp_set ps n v) n = Some v"
  by (induction ps) auto

text \<open>
  Claim C6, as the code has it. \<open>setConfig\<close> leaves the parameter \<open>key.field\<close> with
  the value when the value is non-empty and without any entry otherwise. \<open>toggle\<close>
  leaves the parameter \<open>active\<close> absent exactly when the set after the toggle is
  empty, and otherwise set to its members joined in insertion order. \<open>move\<close> leaves the
  query string as it is when the swap partner is outside the list, and otherwise writes
  the parameter \<open>order\<close> with the swapped list, whether or not that list is the
  registration order.
\<close>

theorem encoders_write_rule:
  "sp_get (setConfig prev k field val) (k @ ''.'' @ field) =
     (if val = [] then None else Some val) \<and>
   sp_get (toggle prev k) ''active'' =
     (let selected = parseActive (sp_get prev ''active'');
          next = (if Set_has selected k then Set_delete selected k else Set_add selected k)
      in if next = [] then None else Some (join CHR '','' (map Some next))) \<and>
   (let order = parseOrder (sp_get prev ''order'');
        swapWith = indexOf order k + dir_int dir
    in if swapWith < 0 \<or> swapWith \<ge> int (length order) then move prev k dir = prev
       else sp_get (move prev k dir) ''order'' = Some (join CHR '','' (move_next order k dir)))"
proof (intro conjI)
  show "sp_get (setConfig prev k field val) (k @ ''.'' @ field) =
     (if val = [] then None else Some val)"
    by (simp add: setConfig_def sp_get_sp_set sp_get_sp_delete)
  show "sp_get (toggle prev k) ''active'' =
     (let selected = parseActive (sp_get prev ''active'');
          next = (if Set_has selected k then Set_delete selected k else Set_add selected k)
      in if next = [] then None else Some (join CHR '','' (map Some next)))"
    by (simp add: toggle_def Let_def sp_get_sp_set sp_get_sp_delete del: Set_add.simps)
  show "let order = parseOrder (sp_get prev ''order'');
        swapWith = indexOf order k + dir_int dir
    in if swapWith < 0 \<or> swapWith \<ge> int (length order) then move prev k dir = prev
       else sp_get (move prev k dir) ''order'' = Some (join CHR '','' (move_next order k dir))"
    by (simp add: move_def Let_def sp_get_sp_set)
qed

text \<open>
  From the order \<open>hostnameReplace, stripAwsTracking\<close>, moving \<open>hostnameReplace\<close> down
  gives the registration order, and \<open>move\<close> writes it to the query string all the same.
\<close>

theorem move_writes_default_order:
  "move [(''order'', ''hostnameReplace,stripAwsTracking'')] ''hostnameReplace'' Plus1 =
     [(''order'', ''stripAwsTracking,hostnameReplace'')] \<and>
   parseOrder (Some ''stripAwsTracking,hostnameReplace'') = ALL_KEYS"
  by (simp add: move_def move_next_def arr_get_def arr_set_def parseOrder_Some
      in_TRANSFORM_MAP_iff ALL_KEYS_eq Object_prototype_keys_def Let_def sp_delete_def)

subsection \<open>\<open>hostnameReplace\<close>\<close>

lemma reduce_hostnameReplace_null:
  assumes cfg: "falsy (prop_to (config_or_empty configs ''hostnameReplace''))"
  shows "\<forall>k \<in> set ks. k = ''hostnameReplace'' \<Longrightarrow>
     acc = [] \<or> step_output (last acc) = url \<Longrightarrow>
     \<exists>rs. reduce P url configs acc ks = Inr (acc @ rs) \<and>
          (rs = [] \<or> step_output (last rs) = url)"
proof (induction ks arbitrary: acc)
  case Nil
  then show ?case by simp
next
  case (Cons k ks)
  from Cons.prems(1) have k: "k = ''hostnameReplace''"
    and ks: "\<forall>k \<in> set ks. k = ''hostnameReplace''" by auto
  define r where "r = \<lparr>step_key = k, step_result = None, step_output = url\<rparr>"
  have inp: "(if length acc > 0 then step_output (last acc) else url) = url"
    using Cons.prems(2) by auto
  have step: "run_step P url configs acc k = Inr (acc @ [r])"
    unfolding run_step_def Let_def inp
    by (simp add: k TRANSFORM_MAP_eq hostnameReplace_fn_falsy [OF cfg] r_def)
  have "acc @ [r] = [] \<or> step_output (last (acc @ [r])) = url" by (simp add: r_def)
  from Cons.IH [OF ks this] obtain rs
    where rs: "reduce P url configs (acc @ [r]) ks = Inr ((acc @ [r]) @ rs)"
      "rs = [] \<or> step_output (last rs) = url" by blast
  have "reduce P url configs acc (k # ks) = Inr (acc @ (r # rs))"
    using step rs(1) by simp
  moreover have "r # rs = [] \<or> step_output (last (r # rs)) = url"
    using rs(2) by (auto simp: r_def)
  ultimately show ?case by (intro exI [of _ "r # rs"]) simp
qed

lemma only_hostnameReplace_null:
  assumes "falsy (prop_to (config_or_empty configs ''hostnameReplace''))"
    and "set selected = {''hostnameReplace''}"
  shows "\<exists>rs. transformResults P url order selected configs = Inr rs \<and>
           final_output url rs = url"
proof -
  have "\<forall>k \<in> set (filter (Set_has selected) order). k = ''hostnameReplace''"
    using assms(2) by (auto simp: Set_has_def)
  from reduce_hostnameReplace_null [OF assms(1) this, of "[]" url P] obtain rs
    where "reduce P url configs [] (filter (Set_has selected) order) = Inr rs"
      "rs = [] \<or> step_output (last rs) = url" by auto
  then show ?thesis
    by (auto simp: transformResults_def final_output_def)
qed

text \<open>The setter changes no component but the host.\<close>

lemma hostname_setter_cases:
  "hostname_setter hp u v = u \<or> (\<exists>h. hostname_setter hp u v = u\<lparr>url_host := Some h\<rparr>)"
proof (cases "url_path u")
  case (Opaque p)
  then show ?thesis by (simp add: hostname_setter_def)
next
  case (Segments segs)
  define r where "r = (if url_scheme u = ''file''
      then file_host_state hp (strip_tab_newline v) []
      else host_state hp u (strip_tab_newline v) [] False)"
  have "hostname_setter hp u v = (case r of None \<Rightarrow> u | Some h \<Rightarrow> u\<lparr>url_host := Some h\<rparr>)"
    unfolding r_def by (simp add: hostname_setter_def Segments Let_def)
  then show ?thesis by (cases r) auto
qed

lemma hostname_setter_opaque:
  "url_path u = Opaque p \<Longrightarrow> hostname_setter hp u v = u"
  by (simp add: hostname_setter_def)

text \<open>The hostname state and the file host state take an input without delimiters whole.\<close>

lemma host_state_plain:
  "list_all (\<lambda>c. c \<noteq> CHR '':'' \<and> c \<noteq> CHR ''/'' \<and> c \<noteq> CHR ''?'' \<and> c \<noteq> CHR ''#'' \<and>
                 c \<noteq> CHR 0x5C) cs \<Longrightarrow>
     host_state hp u cs buffer insideBrackets = host_end hp u (buffer @ cs)"
  by (induction cs arbitrary: buffer insideBrackets) simp_all

lemma file_host_state_plain:
  "list_all (\<lambda>c. c \<noteq> CHR '':'' \<and> c \<noteq> CHR ''/'' \<and> c \<noteq> CHR ''?'' \<and> c \<noteq> CHR ''#'' \<and>
                 c \<noteq> CHR 0x5C) cs \<Longrightarrow>
     file_host_state hp cs buffer = file_host_end hp (buffer @ cs)"
  by (induction cs arbitrary: buffer) simp_all

lemma hostname_setter_plain:
  assumes v: "plain_host (strip_tab_newline v)"
    and path: "url_path u = Segments segs"
    and host: "hp (strip_tab_newline v) (\<not> special_scheme (url_scheme u)) = Some h"
  shows "hostname_setter hp u v =
    u\<lparr>url_host := Some (if url_scheme u = ''file'' \<and> h = ''localhost'' then [] else h)\<rparr>"
proof -
  define input where "input = strip_tab_newline v"
  from v have ne: "input \<noteq> []"
    and plain: "list_all (\<lambda>c. c \<noteq> CHR '':'' \<and> c \<noteq> CHR ''/'' \<and> c \<noteq> CHR ''?'' \<and>
        c \<noteq> CHR ''#'' \<and> c \<noteq> CHR 0x5C) input"
    by (simp_all add: plain_host_def input_def)
  show ?thesis
  proof (cases "url_scheme u = ''file''")
    case True
    then have "hp input False = Some h"
      using host by (simp add: special_scheme_def input_def)
    then have "file_host_state hp input [] =
        Some (if h = ''localhost'' then [] else h)"
      using file_host_state_plain [OF plain, of hp "[]"] ne by (simp add: file_host_end_def)
    then show ?thesis
      using path True by (simp add: hostname_setter_def input_def)
  next
    case False
    have "host_state hp u input [] False = host_end hp u input"
      using host_state_plain [OF plain, of hp u "[]" False] by simp
    also have "\<dots> = Some h"
      using ne host by (simp add: host_end_def input_def)
    finally show ?thesis
      using path False by (simp add: hostname_setter_def input_def)
  qed
qed

lemma hostnameReplace_fn_standard:
  assumes "prop_to cfg = Some t" and "t \<noteq> []" and "parse url = Inr u"
  shows "hostnameReplace_fn (standard_platform dec parse hp) url cfg =
           Inr (Some (serialize (hostname_setter hp u t)))"
  using assms by (simp add: hostnameReplace_fn_def standard_platform_def)

text \<open>
  Claim C7, as the code has it. On every platform \<open>hostnameReplace\<close> returns \<open>null\<close>
  when \<open>to\<close> is absent or empty, and \<open>null\<close> when the \<open>URL\<close> constructor throws on
  the input; and when \<open>hostnameReplace\<close> is the only active transform and its \<open>to\<close>
  is absent or empty, the final output of the run is the input. On a platform that
  follows the URL standard, with any URL parser and any host parser: when the
  constructor returns a URL, the result is the serialization of that URL after the
  hostname setter received \<open>to\<close>, and this URL is the parsed one or the parsed one
  with another host, so scheme, credentials, port, path, query and fragment are those
  of the parsed URL; when \<open>to\<close>, tabs and newlines apart, is not empty and has no
  delimiter, the host parser accepts it and the path is not opaque, the host is the one
  the host parser gives for \<open>to\<close> (the empty host for \<open>localhost\<close> on a \<open>file\<close>
  URL); when the path is opaque, the result is the serialization of the parsed URL
  itself.
\<close>

theorem hostnameReplace_result:
  "(falsy (prop_to cfg) \<longrightarrow> hostnameReplace_fn P url cfg = Inr None) \<and>
   ((\<exists>e. URL_new P url = Inl e) \<longrightarrow> hostnameReplace_fn P url cfg = Inr None) \<and>
   (falsy (prop_to (config_or_empty configs ''hostnameReplace'')) \<and>
    set selected = {''hostnameReplace''} \<longrightarrow>
      (\<exists>rs. transformResults P url order selected configs = Inr rs \<and>
            final_output url rs = url)) \<and>
   (prop_to cfg = Some t \<and> t \<noteq> [] \<and> parse url = Inr u \<longrightarrow>
      hostnameReplace_fn (standard_platform dec parse hp) url cfg =
        Inr (Some (serialize (hostname_setter hp u t))) \<and>
      (hostname_setter hp u t = u \<or>
       (\<exists>h. hostname_setter hp u t = u\<lparr>url_host := Some h\<rparr>))) \<and>
   (prop_to cfg = Some t \<and> plain_host (strip_tab_newline t) \<and> parse url = Inr u \<and>
    url_path u = Segments segs \<and>
    hp (strip_tab_newline t) (\<not> special_scheme (url_scheme u)) = Some h \<longrightarrow>
      hostnameReplace_fn (standard_platform dec parse hp) url cfg =
        Inr (Some (serialize (u\<lparr>url_host :=
          Some (if url_scheme u = ''file'' \<and> h = ''localhost'' then [] else h)\<rparr>)))) \<and>
   (prop_to cfg = Some t \<and> t \<noteq> [] \<and> parse url = Inr u \<and> url_path u = Opaque p \<longrightarrow>
      hostnameReplace_fn (standard_platform dec parse hp) url cfg =
        Inr (Some (serialize u)))"
proof (intro conjI impI)
  assume "falsy (prop_to cfg)"
  then show "hostnameReplace_fn P url cfg = Inr None" by (rule hostnameReplace_fn_falsy)
next
  assume "\<exists>e. URL_new P url = Inl e"
  then obtain e where "URL_new P url = Inl e" by (rule exE)
  then show "hostnameReplace_fn P url cfg = Inr None"
    by (cases "prop_to cfg") (simp_all add: hostnameReplace_fn_def)
next
  assume "falsy (prop_to (config_or_empty configs ''hostnameReplace'')) \<and>
    set selected = {''hostnameReplace''}"
  then show "\<exists>rs. transformResults P url order selected configs = Inr rs \<and>
            final_output url rs = url"
    by (elim conjE) (rule only_hostnameReplace_null)
next
  assume "prop_to cfg = Some t \<and> t \<noteq> [] \<and> parse url = Inr u"
  then show "hostnameReplace_fn (standard_platform dec parse hp) url cfg =
      Inr (Some (serialize (hostname_setter hp u t)))"
    by (elim conjE) (rule hostnameReplace_fn_standard)
next
  show "hostname_setter hp u t = u \<or>
      (\<exists>h. hostname_setter hp u t = u\<lparr>url_host := Some h\<rparr>)"
    by (rule hostname_setter_cases)
next
  assume a: "prop_to cfg = Some t \<and> plain_host (strip_tab_newline t) \<and> parse url = Inr u \<and>
    url_path u = Segments segs \<and>
    hp (strip_tab_newline t) (\<not> special_scheme (url_scheme u)) = Some h"
  then have "t \<noteq> []" by (auto simp: plain_host_def strip_tab_newline_def)
  with a have "hostnameReplace_fn (standard_platform dec parse hp) url cfg =
      Inr (Some (serialize (hostname_setter hp u t)))"
    by (intro hostnameReplace_fn_standard) simp_all
  moreover from a have "hostname_setter hp u t =
      u\<lparr>url_host := Some (if url_scheme u = ''file'' \<and> h = ''localhost'' then [] else h)\<rparr>"
    by (intro hostname_setter_plain [where segs = segs]) simp_all
  ultimately show "hostnameReplace_fn (standard_platform dec parse hp) url cfg =
      Inr (Some (serialize (u\<lparr>url_host :=
        Some (if url_scheme u = ''file'' \<and> h = ''localhost'' then [] else h)\<rparr>)))"
    by simp
next
  assume a: "prop_to cfg = Some t \<and> t \<noteq> [] \<and> parse url = Inr u \<and> url_path u = Opaque p"
  then have "hostnameReplace_fn (standard_platform dec parse hp) url cfg =
      Inr (Some (serialize (hostname_setter hp u t)))"
    by (intro hostnameReplace_fn_standard) simp_all
  moreover from a have "hostname_setter hp u t = u"
    by (intro hostname_setter_opaque [where p = p]) simp
  ultimately show "hostnameReplace_fn (standard_platform dec parse hp) url cfg =
      Inr (Some (serialize u))"
    by simp
qed

text \<open>
  On the sample platform: an empty \<open>to\<close>; an input that is no URL; a run with
  \<open>hostnameReplace.to=\<close>; \<open>https://bar.com/path?x=1\<close> with \<open>to = foo.com/x\<close>, of
  which the setter takes \<open>foo.com\<close>; the same URL with \<open>to = foo.com\<close>; and
  \<open>mailto:a@b.com\<close>, whose path is opaque.
\<close>

theorem hostnameReplace_result_witness:
  "hostnameReplace_fn sample_platform ''https://bar.com/path?x=1'' (JObject [''to'' \<mapsto> []]) =
     Inr None \<and>
   hostnameReplace_fn sample_platform ''not a url'' (JObject [''to'' \<mapsto> ''foo.com'']) =
     Inr None \<and>
   (\<exists>rs. transformResults sample_platform ''https://bar.com/path?x=1'' ALL_KEYS
           [''hostnameReplace''] (parseConfigs [(''hostnameReplace.to'', [])]) = Inr rs \<and>
         final_output ''https://bar.com/path?x=1'' rs = ''https://bar.com/path?x=1'') \<and>
   hostnameReplace_fn sample_platform ''https://bar.com/path?x=1''
       (JObject [''to'' \<mapsto> ''foo.com/x'']) = Inr (Some ''https://foo.com/path?x=1'') \<and>
   hostnameReplace_fn sample_platform ''https://bar.com/path?x=1''
       (JObject [''to'' \<mapsto> ''foo.com'']) = Inr (Some ''https://foo.com/path?x=1'') \<and>
   hostnameReplace_fn sample_platform ''mailto:a@b.com''
       (JObject [''to'' \<mapsto> ''foo.com'']) = Inr (Some ''mailto:a@b.com'')"
proof -
  let ?bar = "\<lparr>url_scheme = ''https'', url_username = [], url_password = [],
      url_host = Some ''bar.com'', url_port = None, url_path = Segments [''path''],
      url_query = Some ''x=1'', url_fragment = None\<rparr>"
  let ?mail = "\<lparr>url_scheme = ''mailto'', url_username = [], url_password = [],
      url_host = None, url_port = None, url_path = Opaque ''a@b.com'',
      url_query = None, url_fragment = None\<rparr>"
  note R = hostnameReplace_result
      [where dec = sample_decode and parse = sample_parser and hp = sample_host_parser,
        folded sample_platform_def]
  have absent: "falsy (prop_to (JObject [''to'' \<mapsto> []]))" by simp
  have throws: "\<exists>e. URL_new sample_platform ''not a url'' = Inl e"
    by (simp add: sample_platform_def standard_platform_def sample_parser_throws)
  have only: "falsy (prop_to (config_or_empty (parseConfigs [(''hostnameReplace.to'', [])])
        ''hostnameReplace'')) \<and> set [''hostnameReplace''] = {''hostnameReplace''}"
    by (simp add: config_or_empty_def configs_get_def parseConfigs_single)
  have parsed: "prop_to (JObject [''to'' \<mapsto> ''foo.com/x'']) = Some ''foo.com/x'' \<and>
      ''foo.com/x'' \<noteq> [] \<and> sample_parser ''https://bar.com/path?x=1'' = Inr ?bar"
    by (simp add: sample_parser_bar)
  have plain: "prop_to (JObject [''to'' \<mapsto> ''foo.com'']) = Some ''foo.com'' \<and>
      plain_host (strip_tab_newline ''foo.com'') \<and>
      sample_parser ''https://bar.com/path?x=1'' = Inr ?bar \<and>
      url_path ?bar = Segments [''path''] \<and>
      sample_host_parser (strip_tab_newline ''foo.com'') (\<not> special_scheme (url_scheme ?bar)) =
        Some ''foo.com''"
    by (simp add: sample_parser_bar strip_foo plain_host_foo sample_host_foo special_scheme_def)
  have opaque: "prop_to (JObject [''to'' \<mapsto> ''foo.com'']) = Some ''foo.com'' \<and>
      ''foo.com'' \<noteq> [] \<and> sample_parser ''mailto:a@b.com'' = Inr ?mail \<and>
      url_path ?mail = Opaque ''a@b.com''"
    by (simp add: sample_parser_mail)
  have 1: "hostnameReplace_fn sample_platform ''https://bar.com/path?x=1''
      (JObject [''to'' \<mapsto> []]) = Inr None"
    by (rule R [THEN conjunct1, THEN mp, OF absent])
  have 2: "hostnameReplace_fn sample_platform ''not a url''
      (JObject [''to'' \<mapsto> ''foo.com'']) = Inr None"
    by (rule R [THEN conjunct2, THEN conjunct1, THEN mp, OF throws])
  have 3: "\<exists>rs. transformResults sample_platform ''https://bar.com/path?x=1'' ALL_KEYS
           [''hostnameReplace''] (parseConfigs [(''hostnameReplace.to'', [])]) = Inr rs \<and>
         final_output ''https://bar.com/path?x=1'' rs = ''https://bar.com/path?x=1''"
    by (rule R [THEN conjunct2, THEN conjunct2, THEN conjunct1, THEN mp, OF only])
  have "hostnameReplace_fn sample_platform ''https://bar.com/path?x=1''
      (JObject [''to'' \<mapsto> ''foo.com/x'']) =
      Inr (Some (serialize (hostname_setter sample_host_parser ?bar ''foo.com/x'')))"
    by (rule R [THEN conjunct2, THEN conjunct2, THEN conjunct2, THEN conjunct1, THEN mp,
          OF parsed, THEN conjunct1])
  then have 4: "hostnameReplace_fn sample_platform ''https://bar.com/path?x=1''
      (JObject [''to'' \<mapsto> ''foo.com/x'']) = Inr (Some ''https://foo.com/path?x=1'')"
    by (simp only: sample_setter_stops)
  have "hostnameReplace_fn sample_platform ''https://bar.com/path?x=1''
      (JObject [''to'' \<mapsto> ''foo.com'']) =
      Inr (Some (serialize (?bar\<lparr>url_host :=
        Some (if url_scheme ?bar = ''file'' \<and> ''foo.com'' = ''localhost'' then []
              else ''foo.com'')\<rparr>)))"
    by (rule R [THEN conjunct2, THEN conjunct2, THEN conjunct2, THEN conjunct2, THEN conjunct1,
          THEN mp, OF plain])
  then have 5: "hostnameReplace_fn sample_platform ''https://bar.com/path?x=1''
      (JObject [''to'' \<mapsto> ''foo.com'']) = Inr (Some ''https://foo.com/path?x=1'')"
    by (simp add: serialize_def includes_credentials_def)
  have "hostnameReplace_fn sample_platform ''mailto:a@b.com''
      (JObject [''to'' \<mapsto> ''foo.com'']) = Inr (Some (serialize ?mail))"
    by (rule R [THEN conjunct2, THEN conjunct2, THEN conjunct2, THEN conjunct2, THEN conjunct2,
          THEN mp, OF opaque])
  then have 6: "hostnameReplace_fn sample_platform ''mailto:a@b.com''
      (JObject [''to'' \<mapsto> ''foo.com'']) = Inr (Some ''mailto:a@b.com'')"
    by (simp add: serialize_def)
  from 1 2 3 4 5 6 show ?thesis by (intro conjI)
qed

text \<open>
  On \<open>https://bar.com/a/../b?x=1#f\<close> the URL parser drops the dot segments of the path,
  so the result is \<open>https://foo.com/b?x=1#f\<close>: the path of the input is not preserved
  verbatim. On \<open>mailto:a@b.com\<close>, which the constructor accepts, the setter does
  nothing and the result is the input: no hostname is replaced. With \<open>to = foo.com/x\<close>
  the new hostname is \<open>foo.com\<close>, not \<open>to\<close>; with \<open>to = foo com\<close>, which the host
  parser rejects, the hostname stays \<open>bar.com\<close>.
\<close>

theorem hostnameReplace_not_substitution:
  "hostnameReplace_fn sample_platform ''https://bar.com/a/../b?x=1#f''
       (JObject [''to'' \<mapsto> ''foo.com'']) = Inr (Some ''https://foo.com/b?x=1#f'') \<and>
   hostnameReplace_fn sample_platform ''mailto:a@b.com''
       (JObject [''to'' \<mapsto> ''foo.com'']) = Inr (Some ''mailto:a@b.com'') \<and>
   hostnameReplace_fn sample_platform ''https://bar.com/path?x=1''
       (JObject [''to'' \<mapsto> ''foo.com/x'']) = Inr (Some ''https://foo.com/path?x=1'') \<and>
   hostnameReplace_fn sample_platform ''https://bar.com/path?x=1''
       (JObject [''to'' \<mapsto> ''foo com'']) = Inr (Some ''https://bar.com/path?x=1'')"
  by code_simp

subsection \<open>The page\<close>

lemmas decode_simps =
  parseOrder_absent parseOrder_Some parseActive_def Set_new_def Set_has_def
  in_TRANSFORM_MAP_iff ALL_KEYS_eq Object_prototype_keys_def
  parseConfigs_def parseConfigs_step_def empty_configs_def configs_set_def configs_get_def
  from_Object_prototype_def config_or_empty_def slice_def slice_from_def

lemmas run_simps =
  UrlTool_output_def transformResults_def run_step_def final_output_def TRANSFORM_MAP_eq
  stripAwsTracking_fn_def hostnameReplace_fn_def Let_def

lemmas page_simps =
  UrlTool_output_def transformResults_def run_step_def final_output_def TRANSFORM_MAP_eq Let_def

lemmas sample_simps = sample_strip sample_replace sample_replace_root

text \<open>
  The query string \<open>?order=toString&active=toString\<close>: the decoders let the inherited
  name through, \<open>TRANSFORM_MAP["toString"]\<close> is not a transform definition, and the
  render ends with \<open>TypeError\<close>, on every platform.
\<close>

lemma page_inherited_name_throws:
  "UrlTool_output P [(''order'', ''toString''), (''active'', ''toString'')] = Inl TypeError"
  by (simp add: decode_simps run_simps)

text \<open>Scenarios A to D of the specification, on the sample platform.\<close>

lemma page_scenario_A:
  "UrlTool_output sample_platform
     [(''u'', ''https://ex.com/L0/https%3A%2F%2Fexample.com''), (''active'', ''stripAwsTracking'')] =
   Inr ''https://example.com''"
  by (simp add: decode_simps page_simps sample_simps)

lemma page_scenario_B:
  "UrlTool_output sample_platform
     [(''u'', ''https://bar.com/path?x=1''), (''active'', ''hostnameReplace''),
      (''hostnameReplace.to'', ''foo.com'')] =
   Inr ''https://foo.com/path?x=1''"
  by (simp add: decode_simps page_simps sample_simps)

lemma page_scenario_C:
  "UrlTool_output sample_platform
     [(''u'', ''https://ex.com/L0/https%3A%2F%2Fexample.com''),
      (''active'', ''stripAwsTracking,hostnameReplace''),
      (''hostnameReplace.to'', ''foo.com'')] =
   Inr ''https://foo.com/''"
  by (simp add: decode_simps page_simps sample_simps)

lemma page_scenario_D:
  "UrlTool_output P
     [(''u'', ''https://bar.com/path?x=1''), (''active'', ''hostnameReplace''),
      (''hostnameReplace.to'', [])] =
   Inr ''https://bar.com/path?x=1''"
  by (simp add: decode_simps run_simps)

end
